theory Spec2Isabelle
  imports Complex_Main "HOL-Library.Sublist"
begin

section \<open>Data model\<close>

text \<open>
  A calendar day is its proleptic Gregorian ordinal, the number Python's
  \<^verbatim>\<open>datetime.date.toordinal\<close> returns. Comparing two \<^verbatim>\<open>datetime.date\<close>
  values (and two midnight \<^verbatim>\<open>pandas.Timestamp\<close> values) is comparing their
  ordinals. Floating-point numbers are idealised as real numbers.
\<close>

type_synonym pydate = int

text \<open>
  One row of the data frame built in \<^verbatim>\<open>generate_data\<close>. The four columns of the
  source carry Chinese names; they are named here as the specification names them.
\<close>

record observation =
  date :: pydate
  valueA :: real
  valueB :: real
  category :: string

text \<open>
  A data frame is the list of its rows in index order: pandas keeps all columns of a
  frame at the same length.
\<close>

type_synonym dataframe = "observation list"

datatype py_error = IndexError

section \<open>The calendar\<close>

text \<open>
  The ordinal of a civil date, computed as CPython's \<^verbatim>\<open>datetime\<close> module does
  (for a month from 1 to 12, which the date constructor checks).
\<close>

definition is_leap :: "int \<Rightarrow> bool" where
  "is_leap year = (year mod 4 = 0 \<and> (year mod 100 \<noteq> 0 \<or> year mod 400 = 0))"

definition days_before_year :: "int \<Rightarrow> int" where
  "days_before_year year =
     (let y = year - 1 in y * 365 + y div 4 - y div 100 + y div 400)"

definition DAYS_BEFORE_MONTH :: "int list" where
  "DAYS_BEFORE_MONTH = [-1, 0, 31, 59, 90, 120, 151, 181, 212, 243, 273, 304, 334]"

definition days_before_month :: "int \<Rightarrow> int \<Rightarrow> int" where
  "days_before_month year month =
     DAYS_BEFORE_MONTH ! nat month + (if month > 2 \<and> is_leap year then 1 else 0)"

definition ymd2ord :: "int \<Rightarrow> int \<Rightarrow> int \<Rightarrow> pydate" where
  "ymd2ord year month day = days_before_year year + days_before_month year month + day"

section \<open>The filter (lines 91 and 92 of the script)\<close>

text \<open>
  \<^verbatim>\<open>date_range[i]\<close>: the date picker returns a tuple, and indexing a tuple out of
  range raises \<^verbatim>\<open>IndexError\<close>.
\<close>

definition tuple_getitem :: "'a list \<Rightarrow> nat \<Rightarrow> py_error + 'a" where
  "tuple_getitem t i = (if i < length t then Inr (t ! i) else Inl IndexError)"

text \<open>\<^verbatim>\<open>.dt.date\<close>: the calendar day of each timestamp of a column.\<close>

definition dt_date :: "pydate list \<Rightarrow> pydate list" where
  "dt_date col = col"

text \<open>The operator \<^verbatim>\<open>&\<close> of two boolean series over the same index.\<close>

definition series_and :: "bool list \<Rightarrow> bool list \<Rightarrow> bool list" where
  "series_and a b = map2 (\<and>) a b"

text \<open>\<^verbatim>\<open>Series.isin(values)\<close>.\<close>

definition isin :: "'a list \<Rightarrow> 'a list \<Rightarrow> bool list" where
  "isin col vals = map (\<lambda>c. c \<in> set vals) col"

text \<open>
  \<^verbatim>\<open>df[key]\<close> with a boolean series as key: a new frame holding the rows at which
  the key is true, in the order of \<^verbatim>\<open>df\<close>.
\<close>

definition getitem_bool :: "dataframe \<Rightarrow> bool list \<Rightarrow> dataframe" where
  "getitem_bool df key = map snd (filter fst (zip key df))"

text \<open>
  Line 91, the variable \<^verbatim>\<open>mask\<close> (the name is taken by a constant of the library):
  \<^verbatim>\<open>mask = (df[DATE].dt.date >= date_range[0]) & (df[DATE].dt.date <= date_range[1])\<close>
\<close>

definition mask_df :: "dataframe \<Rightarrow> pydate list \<Rightarrow> py_error + bool list" where
  "mask_df df date_range =
     (case tuple_getitem date_range 0 of
        Inl e \<Rightarrow> Inl e
      | Inr lo \<Rightarrow>
          (case tuple_getitem date_range 1 of
             Inl e \<Rightarrow> Inl e
           | Inr hi \<Rightarrow>
               Inr (series_and (map (\<lambda>d. d \<ge> lo) (dt_date (map date df)))
                               (map (\<lambda>d. d \<le> hi) (dt_date (map date df))))))"

text \<open>
  Line 92: \<^verbatim>\<open>filtered_df = df[mask & df[CATEGORY].isin(category)]\<close>, after line 91.
\<close>

definition filtered_df :: "dataframe \<Rightarrow> pydate list \<Rightarrow> string list \<Rightarrow> py_error + dataframe" where
  "filtered_df df date_range cats =
     (case mask_df df date_range of
        Inl e \<Rightarrow> Inl e
      | Inr m \<Rightarrow> Inr (getitem_bool df (series_and m (isin (map category df) cats))))"

text \<open>The predicate of the specification: the date lies in the range and the category is accepted.\<close>

definition accepted :: "pydate \<Rightarrow> pydate \<Rightarrow> string set \<Rightarrow> observation \<Rightarrow> bool" where
  "accepted start end cats r = (start \<le> date r \<and> date r \<le> end \<and> category r \<in> cats)"

text \<open>
  The names the script binds, as far as lines 63 to 92 use them. A name that is not
  bound yet holds \<open>None\<close>.
\<close>

record namespace =
  v_df :: dataframe
  v_date_range :: "pydate list"
  v_category :: "string list"
  v_mask :: "bool list option"
  v_filtered_df :: "dataframe option"

text \<open>
  Lines 91 and 92 as statements run on the namespace: each assignment binds one name,
  and an exception leaves the namespace as it was when it was raised.
\<close>

definition run_filter :: "namespace \<Rightarrow> py_error option \<times> namespace" where
  "run_filter s =
     (case mask_df (v_df s) (v_date_range s) of
        Inl e \<Rightarrow> (Some e, s)
      | Inr m \<Rightarrow>
          (let s1 = s\<lparr>v_mask := Some m\<rparr>;
               key = series_and m (isin (map category (v_df s1)) (v_category s1))
           in (None, s1\<lparr>v_filtered_df := Some (getitem_bool (v_df s1) key)\<rparr>)))"

section \<open>The random number generator\<close>

text \<open>
  numpy's global generator is a parameter of the model: a type \<open>'g\<close> of generator
  states with the three operations the script reaches. \<open>seed s\<close> is the state after
  \<^verbatim>\<open>np.random.seed(s)\<close>, which depends on \<open>s\<close> alone; \<open>standard_normal\<close> is one
  draw of the standard normal distribution; \<open>randint high\<close> is one draw of an integer
  below \<open>high\<close>. Each draw returns the state that follows.
\<close>

record 'g random_state =
  seed :: "nat \<Rightarrow> 'g"
  standard_normal :: "'g \<Rightarrow> real \<times> 'g"
  randint :: "nat \<Rightarrow> 'g \<Rightarrow> nat \<times> 'g"

text \<open>numpy documents \<^verbatim>\<open>randint(0, high)\<close> to return an integer of the half-open interval.\<close>

definition randint_in_range :: "'g random_state \<Rightarrow> bool" where
  "randint_in_range R = (\<forall>high g. 0 < high \<longrightarrow> fst (randint R high g) < high)"

text \<open>
  \<^verbatim>\<open>np.random.normal(loc, scale, size)\<close>: \<open>size\<close> draws in sequence, each
  \<open>loc + scale * z\<close> for a standard normal draw \<open>z\<close>.
\<close>

fun normal :: "'g random_state \<Rightarrow> real \<Rightarrow> real \<Rightarrow> nat \<Rightarrow> 'g \<Rightarrow> real list \<times> 'g" where
  "normal R loc scale 0 g = ([], g)"
| "normal R loc scale (Suc n) g =
     (case standard_normal R g of
        (z, g1) \<Rightarrow>
          (case normal R loc scale n g1 of
             (zs, g2) \<Rightarrow> ((loc + scale * z) # zs, g2)))"

text \<open>
  \<^verbatim>\<open>np.random.choice(a, size)\<close>: \<open>size\<close> indices below \<open>len(a)\<close> drawn in sequence,
  each selecting an element of \<open>a\<close>.
\<close>

fun choice :: "'g random_state \<Rightarrow> 'a list \<Rightarrow> nat \<Rightarrow> 'g \<Rightarrow> 'a list \<times> 'g" where
  "choice R a 0 g = ([], g)"
| "choice R a (Suc n) g =
     (case randint R (length a) g of
        (k, g1) \<Rightarrow>
          (case choice R a n g1 of
             (xs, g2) \<Rightarrow> ((a ! k) # xs, g2)))"

text \<open>
  The stream of draws, position by position: the state after \<open>n\<close> draws of one kind,
  and the draw made at position \<open>i\<close>.
\<close>

definition after_normals :: "'g random_state \<Rightarrow> nat \<Rightarrow> 'g \<Rightarrow> 'g" where
  "after_normals R n g = ((\<lambda>s. snd (standard_normal R s)) ^^ n) g"

definition nth_normal :: "'g random_state \<Rightarrow> real \<Rightarrow> real \<Rightarrow> 'g \<Rightarrow> nat \<Rightarrow> real" where
  "nth_normal R loc scale g i = loc + scale * fst (standard_normal R (after_normals R i g))"

definition after_randints :: "'g random_state \<Rightarrow> nat \<Rightarrow> nat \<Rightarrow> 'g \<Rightarrow> 'g" where
  "after_randints R high n g = ((\<lambda>s. snd (randint R high s)) ^^ n) g"

definition nth_choice :: "'g random_state \<Rightarrow> 'a list \<Rightarrow> 'g \<Rightarrow> nat \<Rightarrow> 'a" where
  "nth_choice R a g i = a ! fst (randint R (length a) (after_randints R (length a) i g))"

text \<open>
  A small concrete generator, a linear congruential one over the naturals, on which the
  properties below are instantiated.
\<close>

definition lcg_next :: "nat \<Rightarrow> nat" where
  "lcg_next g = (g * 1103515245 + 12345) mod 2147483648"

definition lcg :: "nat random_state" where
  "lcg = \<lparr>seed = (\<lambda>s. s),
          standard_normal = (\<lambda>g. (real (g mod 7) - 3, lcg_next g)),
          randint = (\<lambda>high g. (g mod high, lcg_next g))\<rparr>"

section \<open>The data generator (lines 47 to 61 of the script)\<close>

text \<open>
  \<^verbatim>\<open>pd.date_range(start, end, freq='D')\<close>: every day from \<open>start\<close> to \<open>end\<close>, both
  included.
\<close>

definition pd_date_range :: "pydate \<Rightarrow> pydate \<Rightarrow> pydate list" where
  "pd_date_range start end = [start..end]"

text \<open>
  \<^verbatim>\<open>np.linspace(start, stop, num)\<close>: \<open>num\<close> samples \<open>i * step + start\<close> with
  \<open>step = (stop - start) / (num - 1)\<close>; a single sample is \<open>start\<close>.
\<close>

definition linspace :: "real \<Rightarrow> real \<Rightarrow> nat \<Rightarrow> real list" where
  "linspace start stop num =
     (if num = 1 then [start]
      else map (\<lambda>i. real i * ((stop - start) / real (num - 1)) + start) [0..<num])"

text \<open>
  The three labels of line 59, as the UTF-8 bytes of the source's string literals
  (two Chinese characters and a digit each).
\<close>

definition type1 :: string where
  "type1 = [CHR 0xE7, CHR 0xB1, CHR 0xBB, CHR 0xE5, CHR 0x9E, CHR 0x8B, CHR ''1'']"

definition type2 :: string where
  "type2 = [CHR 0xE7, CHR 0xB1, CHR 0xBB, CHR 0xE5, CHR 0x9E, CHR 0x8B, CHR ''2'']"

definition type3 :: string where
  "type3 = [CHR 0xE7, CHR 0xB1, CHR 0xBB, CHR 0xE5, CHR 0x9E, CHR 0x8B, CHR ''3'']"

text \<open>
  \<^verbatim>\<open>pd.DataFrame({...})\<close> of four columns: row \<open>i\<close> holds the entries at position
  \<open>i\<close> of the columns.
\<close>

definition DataFrame :: "pydate list \<Rightarrow> real list \<Rightarrow> real list \<Rightarrow> string list \<Rightarrow> dataframe" where
  "DataFrame ds as bs cs =
     map (\<lambda>(d, a, b, c). \<lparr>date = d, valueA = a, valueB = b, category = c\<rparr>)
       (zip ds (zip as (zip bs cs)))"

text \<open>
  \<^verbatim>\<open>generate_data()\<close>, run with the global generator in state \<open>g0\<close>; it returns the
  frame and the state it leaves the generator in. The draws are made in the order the
  source evaluates them: the noise of line 52, then within the dictionary display the
  noise of line 58, then the choice of line 59.
\<close>

definition generate_data :: "'g random_state \<Rightarrow> 'g \<Rightarrow> dataframe \<times> 'g" where
  "generate_data R g0 =
     (let g1 = seed R 42;
          dates = pd_date_range (ymd2ord 2023 1 1) (ymd2ord 2023 6 30);
          base_values = map (\<lambda>x. sin x * 50 + 100) (linspace 0 (4 * pi) (length dates))
      in case normal R 0 5 (length dates) g1 of
           (noise, g2) \<Rightarrow>
             (let values = map2 (+) base_values noise
              in case normal R 0 3 (length dates) g2 of
                   (noiseB, g3) \<Rightarrow>
                     (case choice R [type1, type2, type3] (length dates) g3 of
                        (cats, g4) \<Rightarrow>
                          (DataFrame dates values
                             (map2 (+) (map (\<lambda>v. v * 0.8) values) noiseB) cats, g4))))"

section \<open>Properties of the filter\<close>

lemma getitem_bool_map: "getitem_bool df (map p df) = filter p df"
  by (induction df) (simp_all add: getitem_bool_def)

text \<open>
  What line 91 and 92 compute for any tuple: a tuple shorter than two raises at line 91;
  otherwise the rows accepted for its first two entries are kept.
\<close>

lemma filtered_df_cases:
  "filtered_df df dr cats =
     (if length dr < 2 then Inl IndexError
      else Inr (filter (accepted (dr ! 0) (dr ! 1) (set cats)) df))"
proof (cases "length dr < 2")
  case True
  then show ?thesis
    by (auto simp: filtered_df_def mask_df_def tuple_getitem_def)
next
  case False
  then obtain a b rest where dr: "dr = a # b # rest"
    by (cases dr; cases "tl dr") auto
  have "series_and (series_and (map (\<lambda>d. a \<le> d) (map date df)) (map (\<lambda>d. d \<le> b) (map date df)))
          (isin (map category df) cats)
      = map (accepted a b (set cats)) df"
    by (simp add: series_and_def isin_def accepted_def zip_map_map zip_same_conv_map)
  then show ?thesis
    by (simp add: dr filtered_df_def mask_df_def tuple_getitem_def dt_date_def getitem_bool_map)
qed

lemma filtered_df_pair:
  "filtered_df df [start, end] cats = Inr (filter (accepted start end (set cats)) df)"
  by (simp add: filtered_df_cases)

lemma filtered_df_short_tuple:
  "length dr < 2 \<Longrightarrow> filtered_df df dr cats = Inl IndexError"
  by (simp add: filtered_df_cases)

lemma run_filter_filtered_df:
  "filtered_df (v_df s) (v_date_range s) (v_category s) = Inr out \<Longrightarrow>
   fst (run_filter s) = None \<and> v_filtered_df (snd (run_filter s)) = Some out"
  by (auto simp: run_filter_def filtered_df_def Let_def split: sum.splits)

lemma filter_all: "(\<And>x. x \<in> set xs \<Longrightarrow> P x) \<Longrightarrow> filter P xs = xs"
  by (induction xs) auto

text \<open>
  Claim C1. For every frame, every date range \<open>[start, end]\<close> and every list of
  accepted categories, the filter returns (without raising) exactly the rows whose date
  lies between \<open>start\<close> and \<open>end\<close>, both included, and whose category is accepted:
  every row of the output satisfies the predicate, every row of the input that satisfies
  it is in the output, and the output is a subsequence of the input, so the relative
  order of the rows is kept.
\<close>

theorem filter_sound_complete_stable:
  "\<exists>out. filtered_df df [start, end] cats = Inr out
     \<and> out = filter (accepted start end (set cats)) df
     \<and> set out = {r \<in> set df. start \<le> date r \<and> date r \<le> end \<and> category r \<in> set cats}
     \<and> subseq out df"
  by (auto simp: filtered_df_pair accepted_def)

theorem filter_sound_complete_stable_witness:
  "filtered_df
     [\<lparr>date = 1, valueA = 10, valueB = 8, category = ''a''\<rparr>,
      \<lparr>date = 2, valueA = 11, valueB = 9, category = ''b''\<rparr>,
      \<lparr>date = 3, valueA = 12, valueB = 7, category = ''a''\<rparr>,
      \<lparr>date = 4, valueA = 13, valueB = 6, category = ''a''\<rparr>]
     [2, 3] [''a'']
   = Inr [\<lparr>date = 3, valueA = 12, valueB = 7, category = ''a''\<rparr>]"
  using filter_sound_complete_stable
    [of "[\<lparr>date = 1, valueA = 10, valueB = 8, category = ''a''\<rparr>,
          \<lparr>date = 2, valueA = 11, valueB = 9, category = ''b''\<rparr>,
          \<lparr>date = 3, valueA = 12, valueB = 7, category = ''a''\<rparr>,
          \<lparr>date = 4, valueA = 13, valueB = 6, category = ''a''\<rparr>]" 2 3 "[''a'']"]
  by (simp add: accepted_def)

text \<open>
  Claim C7. For every frame and every date range, the filter returns the empty frame,
  and raises nothing, when the list of accepted categories is empty; and for every list
  of categories it returns the empty frame, and raises nothing, when the range is
  inverted (\<open>end < start\<close>).
\<close>

theorem filter_empty_policy:
  "filtered_df df [start, end] [] = Inr []
   \<and> (end < start \<longrightarrow> filtered_df df [start, end] cats = Inr [])"
  by (auto simp: filtered_df_pair accepted_def)

theorem filter_empty_policy_witness:
  "filtered_df [\<lparr>date = 2, valueA = 11, valueB = 9, category = ''b''\<rparr>] [1, 3] [] = Inr []
   \<and> (2::int) < 3
   \<and> filtered_df [\<lparr>date = 2, valueA = 11, valueB = 9, category = ''b''\<rparr>] [3, 2] [''b''] = Inr []"
  using filter_empty_policy
    [of "[\<lparr>date = 2, valueA = 11, valueB = 9, category = ''b''\<rparr>]" 1 3]
    filter_empty_policy
    [of "[\<lparr>date = 2, valueA = 11, valueB = 9, category = ''b''\<rparr>]" 3 2 "[''b'']"]
  by simp

text \<open>
  Claim C9. Running lines 91 and 92 never changes the frame bound to \<open>df\<close>: whatever
  the namespace holds, and whether or not line 91 raises, \<open>df\<close> (and with it the date
  range and the category selection) is after the filter what it was before.
\<close>

theorem filter_no_mutation:
  "v_df (snd (run_filter s)) = v_df s
   \<and> v_date_range (snd (run_filter s)) = v_date_range s
   \<and> v_category (snd (run_filter s)) = v_category s"
  by (simp add: run_filter_def Let_def split: sum.split)

theorem filter_no_mutation_witness:
  "v_df (snd (run_filter
      \<lparr>v_df = [\<lparr>date = 2, valueA = 11, valueB = 9, category = ''b''\<rparr>,
                \<lparr>date = 5, valueA = 12, valueB = 7, category = ''a''\<rparr>],
       v_date_range = [2, 3], v_category = [''b''],
       v_mask = None, v_filtered_df = None\<rparr>))
   = [\<lparr>date = 2, valueA = 11, valueB = 9, category = ''b''\<rparr>,
      \<lparr>date = 5, valueA = 12, valueB = 7, category = ''a''\<rparr>]"
  using filter_no_mutation
    [of "\<lparr>v_df = [\<lparr>date = 2, valueA = 11, valueB = 9, category = ''b''\<rparr>,
                   \<lparr>date = 5, valueA = 12, valueB = 7, category = ''a''\<rparr>],
          v_date_range = [2, 3], v_category = [''b''],
          v_mask = None, v_filtered_df = None\<rparr>"]
  by simp

text \<open>
  Claim C10. The filter is idempotent: when it returns a frame for a date range and a
  list of categories, filtering that frame again with the same range and the same
  categories returns the same frame.
\<close>

theorem filter_idempotent:
  "filtered_df df date_range cats = Inr out \<Longrightarrow> filtered_df out date_range cats = Inr out"
  by (auto simp: filtered_df_cases split: if_splits)

theorem filter_idempotent_witness:
  "filtered_df
     [\<lparr>date = 2, valueA = 11, valueB = 9, category = ''b''\<rparr>,
      \<lparr>date = 5, valueA = 12, valueB = 7, category = ''b''\<rparr>] [2, 3] [''b'']
     = Inr [\<lparr>date = 2, valueA = 11, valueB = 9, category = ''b''\<rparr>]
   \<and> filtered_df [\<lparr>date = 2, valueA = 11, valueB = 9, category = ''b''\<rparr>] [2, 3] [''b'']
     = Inr [\<lparr>date = 2, valueA = 11, valueB = 9, category = ''b''\<rparr>]"
proof -
  have first: "filtered_df
     [\<lparr>date = 2, valueA = 11, valueB = 9, category = ''b''\<rparr>,
      \<lparr>date = 5, valueA = 12, valueB = 7, category = ''b''\<rparr>] [2, 3] [''b'']
     = Inr [\<lparr>date = 2, valueA = 11, valueB = 9, category = ''b''\<rparr>]"
    by (simp add: filtered_df_pair accepted_def)
  from first filter_idempotent [OF first] show ?thesis
    by (rule conjI)
qed

section \<open>Properties of the generator\<close>

lemma ymd2ord_start: "ymd2ord 2023 1 1 = 738521"
  by (simp add: ymd2ord_def days_before_year_def days_before_month_def DAYS_BEFORE_MONTH_def is_leap_def)

lemma ymd2ord_end: "ymd2ord 2023 6 30 = 738701"
  by (simp add: ymd2ord_def days_before_year_def days_before_month_def DAYS_BEFORE_MONTH_def is_leap_def)

lemma length_pd_date_range: "length (pd_date_range start end) = nat (end - start + 1)"
  by (simp add: pd_date_range_def)

lemma nth_pd_date_range:
  "i < nat (end - start + 1) \<Longrightarrow> pd_date_range start end ! i = start + int i"
  by (simp add: pd_date_range_def)

lemma after_normals_Suc:
  "after_normals R (Suc n) g = after_normals R n (snd (standard_normal R g))"
  by (simp only: after_normals_def funpow_Suc_right o_apply)

lemma after_normals_0: "after_normals R 0 g = g"
  by (simp add: after_normals_def)

lemma after_normals_add:
  "after_normals R (m + n) g = after_normals R n (after_normals R m g)"
  by (induction m arbitrary: g) (simp_all add: after_normals_0 after_normals_Suc)

lemma normal_length: "length (fst (normal R loc scale n g)) = n"
  by (induction n arbitrary: g) (simp_all add: case_prod_unfold)

lemma normal_state: "snd (normal R loc scale n g) = after_normals R n g"
  by (induction n arbitrary: g) (simp_all add: after_normals_0 after_normals_Suc case_prod_unfold)

lemma normal_nth:
  "i < n \<Longrightarrow> fst (normal R loc scale n g) ! i = nth_normal R loc scale g i"
proof (induction n arbitrary: g i)
  case 0
  then show ?case by simp
next
  case (Suc n)
  show ?case
  proof (cases i)
    case 0
    then show ?thesis
      by (simp add: nth_normal_def after_normals_0 case_prod_unfold)
  next
    case (Suc j)
    with Suc.prems have "j < n" by simp
    from Suc.IH [OF this, of "snd (standard_normal R g)"] Suc show ?thesis
      by (simp add: nth_normal_def after_normals_Suc case_prod_unfold)
  qed
qed

lemma after_randints_Suc:
  "after_randints R high (Suc n) g = after_randints R high n (snd (randint R high g))"
  by (simp only: after_randints_def funpow_Suc_right o_apply)

lemma after_randints_0: "after_randints R high 0 g = g"
  by (simp add: after_randints_def)

lemma choice_length: "length (fst (choice R a n g)) = n"
  by (induction n arbitrary: g) (simp_all add: case_prod_unfold)

lemma choice_state: "snd (choice R a n g) = after_randints R (length a) n g"
  by (induction n arbitrary: g) (simp_all add: after_randints_0 after_randints_Suc case_prod_unfold)

lemma choice_nth:
  "i < n \<Longrightarrow> fst (choice R a n g) ! i = nth_choice R a g i"
proof (induction n arbitrary: g i)
  case 0
  then show ?case by simp
next
  case (Suc n)
  show ?case
  proof (cases i)
    case 0
    then show ?thesis
      by (simp add: nth_choice_def after_randints_0 case_prod_unfold)
  next
    case (Suc j)
    with Suc.prems have "j < n" by simp
    from Suc.IH [OF this, of "snd (randint R (length a) g)"] Suc show ?thesis
      by (simp add: nth_choice_def after_randints_Suc case_prod_unfold)
  qed
qed

lemma choice_in_set:
  "randint_in_range R \<Longrightarrow> a \<noteq> [] \<Longrightarrow> set (fst (choice R a n g)) \<subseteq> set a"
proof (induction n arbitrary: g)
  case 0
  then show ?case by simp
next
  case (Suc n)
  from Suc.prems have "fst (randint R (length a) g) < length a"
    by (simp add: randint_in_range_def)
  with Suc.IH [OF Suc.prems, of "snd (randint R (length a) g)"] show ?case
    by (simp add: case_prod_unfold)
qed

lemma gen_dates: "pd_date_range (ymd2ord 2023 1 1) (ymd2ord 2023 6 30) = [738521..738701]"
  by (simp add: pd_date_range_def ymd2ord_start ymd2ord_end)

lemma length_gen_dates: "length (pd_date_range (ymd2ord 2023 1 1) (ymd2ord 2023 6 30)) = 181"
  by (simp add: length_pd_date_range ymd2ord_start ymd2ord_end)

lemma generate_data_frame:
  "fst (generate_data R g0) =
     DataFrame (pd_date_range (ymd2ord 2023 1 1) (ymd2ord 2023 6 30))
       (map2 (+) (map (\<lambda>x. sin x * 50 + 100) (linspace 0 (4 * pi) 181))
                 (fst (normal R 0 5 181 (seed R 42))))
       (map2 (+) (map (\<lambda>v. v * 0.8)
                    (map2 (+) (map (\<lambda>x. sin x * 50 + 100) (linspace 0 (4 * pi) 181))
                              (fst (normal R 0 5 181 (seed R 42)))))
                 (fst (normal R 0 3 181 (after_normals R 181 (seed R 42)))))
       (fst (choice R [type1, type2, type3] 181 (after_normals R 362 (seed R 42))))"
proof -
  have "after_normals R 181 (after_normals R 181 (seed R 42)) = after_normals R 362 (seed R 42)"
    using after_normals_add [of R 181 181 "seed R 42"] by simp
  then show ?thesis
    by (simp add: generate_data_def Let_def length_gen_dates case_prod_unfold normal_state)
qed

lemma length_DataFrame:
  "length as = length ds \<Longrightarrow> length bs = length ds \<Longrightarrow> length cs = length ds \<Longrightarrow>
   length (DataFrame ds as bs cs) = length ds"
  by (simp add: DataFrame_def)

lemma nth_DataFrame:
  "length as = length ds \<Longrightarrow> length bs = length ds \<Longrightarrow> length cs = length ds \<Longrightarrow>
   i < length ds \<Longrightarrow>
   DataFrame ds as bs cs ! i = \<lparr>date = ds ! i, valueA = as ! i, valueB = bs ! i, category = cs ! i\<rparr>"
  by (simp add: DataFrame_def)

lemma map_date_DataFrame:
  "length as = length ds \<Longrightarrow> length bs = length ds \<Longrightarrow> length cs = length ds \<Longrightarrow>
   map date (DataFrame ds as bs cs) = ds"
  by (rule nth_equalityI) (simp_all add: length_DataFrame nth_DataFrame)

lemma map_category_DataFrame:
  "length as = length ds \<Longrightarrow> length bs = length ds \<Longrightarrow> length cs = length ds \<Longrightarrow>
   map category (DataFrame ds as bs cs) = cs"
  by (rule nth_equalityI) (simp_all add: length_DataFrame nth_DataFrame)

lemma length_linspace: "length (linspace start stop num) = num"
  by (simp add: linspace_def)

lemma nth_linspace:
  "i < num \<Longrightarrow> linspace start stop num ! i = real i * ((stop - start) / real (num - 1)) + start"
  by (auto simp: linspace_def)

lemma nth_normal_shift:
  "nth_normal R loc scale (after_normals R m g) i = nth_normal R loc scale g (m + i)"
  by (simp add: nth_normal_def after_normals_add)

lemma generate_data_length: "length (fst (generate_data R g0)) = 181"
  by (simp add: generate_data_frame length_DataFrame length_gen_dates length_linspace
      normal_length choice_length)

lemma generate_data_dates:
  "map date (fst (generate_data R g0)) = pd_date_range (ymd2ord 2023 1 1) (ymd2ord 2023 6 30)"
  by (simp add: generate_data_frame map_date_DataFrame length_gen_dates length_linspace
      normal_length choice_length)

lemma generate_data_categories:
  "map category (fst (generate_data R g0)) =
     fst (choice R [type1, type2, type3] 181 (after_normals R 362 (seed R 42)))"
  by (simp add: generate_data_frame map_category_DataFrame length_gen_dates length_linspace
      normal_length choice_length)

lemma generate_data_nth:
  assumes "i < 181"
  shows "fst (generate_data R g0) ! i =
     \<lparr>date = ymd2ord 2023 1 1 + int i,
      valueA = sin (real i * (4 * pi / 180)) * 50 + 100 + nth_normal R 0 5 (seed R 42) i,
      valueB = (sin (real i * (4 * pi / 180)) * 50 + 100 + nth_normal R 0 5 (seed R 42) i) * 0.8
                 + nth_normal R 0 3 (seed R 42) (181 + i),
      category = nth_choice R [type1, type2, type3] (after_normals R 362 (seed R 42)) i\<rparr>"
proof -
  have d: "pd_date_range (ymd2ord 2023 1 1) (ymd2ord 2023 6 30) ! i = ymd2ord 2023 1 1 + int i"
    using assms by (simp add: nth_pd_date_range ymd2ord_start ymd2ord_end)
  have l: "linspace 0 (4 * pi) 181 ! i = real i * (4 * pi / 180)"
    using assms by (simp add: nth_linspace)
  show ?thesis
    using assms
    by (simp add: generate_data_frame nth_DataFrame length_gen_dates length_linspace
        normal_length choice_length d l normal_nth choice_nth nth_normal_shift)
qed

lemma generate_data_state:
  "snd (generate_data R g0) = after_randints R 3 181 (after_normals R 362 (seed R 42))"
proof -
  have "after_normals R 181 (after_normals R 181 (seed R 42)) = after_normals R 362 (seed R 42)"
    using after_normals_add [of R 181 181 "seed R 42"] by simp
  then show ?thesis
    by (simp add: generate_data_def Let_def length_gen_dates case_prod_unfold normal_state
        choice_state numeral_3_eq_3)
qed

lemma count_list_distinct:
  "distinct xs \<Longrightarrow> count_list xs d = (if d \<in> set xs then 1 else 0)"
  by (induction xs) auto

lemma count_list_upto: "count_list [s..e] (d::int) = (if s \<le> d \<and> d \<le> e then 1 else 0)"
  by (simp add: count_list_distinct)

lemma lcg_in_range: "randint_in_range lcg"
  by (simp add: randint_in_range_def lcg_def)

text \<open>
  Claim C2. Two calls of the generator (same seed 42, same date range, both fixed in the
  source) return the same frame, row by row and column by column, and leave the global
  random generator in the same state, whatever state it is in when each call starts;
  in particular a second call, started in the state the first call left, returns the
  frame of the first.
\<close>

theorem generate_data_deterministic:
  "generate_data R g = generate_data R g'
   \<and> fst (generate_data R (snd (generate_data R g))) = fst (generate_data R g)"
  by (simp add: generate_data_def)

theorem generate_data_deterministic_witness:
  "generate_data lcg 0 = generate_data lcg 7
   \<and> fst (generate_data lcg (snd (generate_data lcg 0))) = fst (generate_data lcg 0)"
  by (rule generate_data_deterministic)

text \<open>
  Claim C3. For every zero-based index \<open>i\<close> of the generated frame of length \<open>n\<close>,
  \<open>valueA(i) = 50 * sin(4 pi i / (n - 1)) + 100 + noise_i\<close>, where \<open>noise_i\<close> is the draw
  at position \<open>i\<close> of the stream of normal draws (mean 0, standard deviation 5) of the
  generator seeded with 42.
\<close>

theorem valueA_formula:
  "i < length (fst (generate_data R g0)) \<Longrightarrow>
   valueA (fst (generate_data R g0) ! i) =
     50 * sin (4 * pi * real i / real (length (fst (generate_data R g0)) - 1)) + 100
       + nth_normal R 0 5 (seed R 42) i"
  by (simp add: generate_data_length generate_data_nth algebra_simps)

theorem valueA_formula_witness:
  "0 < length (fst (generate_data lcg 0)) \<and> valueA (fst (generate_data lcg 0) ! 0) = 85"
proof -
  have len: "0 < length (fst (generate_data lcg 0))"
    by (simp add: generate_data_length)
  have noise: "nth_normal lcg 0 5 (seed lcg 42) 0 = - 15"
    by (simp add: nth_normal_def after_normals_def lcg_def)
  from valueA_formula [OF len] noise have "valueA (fst (generate_data lcg 0) ! 0) = 85"
    by simp
  with len show ?thesis
    by (rule conjI)
qed

text \<open>
  Claim C4. For every zero-based index \<open>i\<close> of the generated frame of length \<open>n\<close>,
  \<open>valueB(i) = 0.8 * valueA(i) + noise'_i\<close> with \<open>noise'_i\<close> a normal draw of mean 0 and
  standard deviation 3, and the seeded stream is consumed in this order: the noise of
  \<open>valueA\<close> is the normal draws at positions \<open>0\<close> to \<open>n - 1\<close>, the noise of \<open>valueB\<close> the
  normal draws at positions \<open>n\<close> to \<open>2 n - 1\<close>, and the categories are the \<open>n\<close> choices
  drawn from the state after those \<open>2 n\<close> normal draws, after which the generator is
  left.
\<close>

theorem valueB_formula_and_draw_order:
  "i < length (fst (generate_data R g0)) \<Longrightarrow>
   (let df = fst (generate_data R g0); n = length df; g1 = seed R 42 in
      valueA (df ! i)
        = sin (linspace 0 (4 * pi) n ! i) * 50 + 100 + nth_normal R 0 5 g1 i
    \<and> valueB (df ! i) = 0.8 * valueA (df ! i) + nth_normal R 0 3 g1 (n + i)
    \<and> category (df ! i) = nth_choice R [type1, type2, type3] (after_normals R (2 * n) g1) i
    \<and> snd (generate_data R g0) = after_randints R 3 n (after_normals R (2 * n) g1))"
  by (simp add: generate_data_length generate_data_nth generate_data_state nth_linspace Let_def)

theorem valueB_formula_and_draw_order_witness:
  "0 < length (fst (generate_data lcg 0))
   \<and> valueB (fst (generate_data lcg 0) ! 0)
       = 0.8 * valueA (fst (generate_data lcg 0) ! 0) + nth_normal lcg 0 3 42 181
   \<and> category (fst (generate_data lcg 0) ! 0)
       = nth_choice lcg [type1, type2, type3] (after_normals lcg 362 42) 0
   \<and> snd (generate_data lcg 0) = after_randints lcg 3 181 (after_normals lcg 362 42)"
proof -
  have len: "0 < length (fst (generate_data lcg 0))"
    by (simp add: generate_data_length)
  have s: "seed lcg 42 = 42"
    by (simp add: lcg_def)
  from valueB_formula_and_draw_order [OF len] len show ?thesis
    by (simp add: Let_def generate_data_length s)
qed

text \<open>
  Claim C5. The generated frame has \<open>(end_date - start_date).days + 1\<close> rows, which is
  181 for 2023-01-01 to 2023-06-30; its dates are strictly increasing; and every
  calendar day of the range is the date of exactly one row, every other day of none.
\<close>

theorem generated_dates:
  "(let df = fst (generate_data R g0); s = ymd2ord 2023 1 1; e = ymd2ord 2023 6 30 in
      int (length df) = (e - s) + 1
    \<and> length df = 181
    \<and> sorted_wrt (<) (map date df)
    \<and> (\<forall>d. count_list (map date df) d = (if s \<le> d \<and> d \<le> e then 1 else 0)))"
proof -
  let ?df = "fst (generate_data R g0)"
  let ?s = "ymd2ord 2023 1 1" and ?e = "ymd2ord 2023 6 30"
  have len: "length ?df = 181"
    by (rule generate_data_length)
  have days: "int (length ?df) = (?e - ?s) + 1"
    unfolding len ymd2ord_start ymd2ord_end by simp
  have dates: "map date ?df = [?s..?e]"
    by (simp only: generate_data_dates pd_date_range_def)
  have incr: "sorted_wrt (<) (map date ?df)"
    unfolding dates by (rule sorted_wrt_upto)
  have once: "count_list (map date ?df) d = (if ?s \<le> d \<and> d \<le> ?e then 1 else 0)" for d
    unfolding dates by (rule count_list_upto)
  from days len incr once show ?thesis
    unfolding Let_def by blast
qed

theorem generated_dates_witness:
  "length (fst (generate_data lcg 0)) = 181
   \<and> sorted_wrt (<) (map date (fst (generate_data lcg 0)))
   \<and> count_list (map date (fst (generate_data lcg 0))) (ymd2ord 2023 2 14) = 1
   \<and> count_list (map date (fst (generate_data lcg 0))) (ymd2ord 2023 7 1) = 0"
proof -
  have inside: "ymd2ord 2023 1 1 \<le> ymd2ord 2023 2 14 \<and> ymd2ord 2023 2 14 \<le> ymd2ord 2023 6 30"
    by (simp add: ymd2ord_def days_before_year_def days_before_month_def
        DAYS_BEFORE_MONTH_def is_leap_def)
  have outside: "\<not> ymd2ord 2023 7 1 \<le> ymd2ord 2023 6 30"
    by (simp add: ymd2ord_def days_before_year_def days_before_month_def
        DAYS_BEFORE_MONTH_def is_leap_def)
  from generated_dates [of lcg 0] inside outside show ?thesis
    by (simp add: Let_def)
qed

text \<open>
  Claim C6. Every row of the generated frame carries one of the three labels of line 59,
  given that every integer the generator draws below a positive bound is below it.
\<close>

theorem category_closed:
  "randint_in_range R \<Longrightarrow>
   \<forall>r \<in> set (fst (generate_data R g0)). category r \<in> {type1, type2, type3}"
proof
  fix r
  assume R: "randint_in_range R" and r: "r \<in> set (fst (generate_data R g0))"
  from r have "category r \<in> set (map category (fst (generate_data R g0)))"
    by simp
  also have "\<dots> \<subseteq> set [type1, type2, type3]"
    unfolding generate_data_categories by (rule choice_in_set [OF R]) simp
  finally show "category r \<in> {type1, type2, type3}"
    by simp
qed

theorem category_closed_witness:
  "randint_in_range lcg \<and> category (fst (generate_data lcg 0) ! 0) \<in> {type1, type2, type3}"
proof -
  have "fst (generate_data lcg 0) ! 0 \<in> set (fst (generate_data lcg 0))"
    by (rule nth_mem) (simp add: generate_data_length)
  with category_closed [OF lcg_in_range, of 0] lcg_in_range show ?thesis
    by blast
qed

text \<open>
  Claim C8. With seed 42 and the range 2023-01-01 to 2023-06-30, filtering the
  generated frame with the full date range and all three labels accepted returns the
  generated frame itself, of length 181.
\<close>

theorem full_filter_identity:
  "randint_in_range R \<Longrightarrow>
   filtered_df (fst (generate_data R g0)) [ymd2ord 2023 1 1, ymd2ord 2023 6 30]
       [type1, type2, type3] = Inr (fst (generate_data R g0))
   \<and> length (fst (generate_data R g0)) = 181"
proof -
  assume R: "randint_in_range R"
  let ?df = "fst (generate_data R g0)"
  have acc: "accepted (ymd2ord 2023 1 1) (ymd2ord 2023 6 30) (set [type1, type2, type3]) r"
    if r: "r \<in> set ?df" for r
  proof -
    from r have "date r \<in> set (map date ?df)" by simp
    then have d: "ymd2ord 2023 1 1 \<le> date r \<and> date r \<le> ymd2ord 2023 6 30"
      by (simp add: generate_data_dates pd_date_range_def)
    from r have "category r \<in> set (map category ?df)" by simp
    also have "\<dots> \<subseteq> set [type1, type2, type3]"
      unfolding generate_data_categories by (rule choice_in_set [OF R]) simp
    finally show ?thesis using d by (simp add: accepted_def)
  qed
  have "filter (accepted (ymd2ord 2023 1 1) (ymd2ord 2023 6 30) (set [type1, type2, type3])) ?df = ?df"
    by (rule filter_all) (rule acc)
  then show ?thesis
    by (simp add: filtered_df_pair generate_data_length)
qed

theorem full_filter_identity_witness:
  "randint_in_range lcg
   \<and> filtered_df (fst (generate_data lcg 0)) [ymd2ord 2023 1 1, ymd2ord 2023 6 30]
        [type1, type2, type3] = Inr (fst (generate_data lcg 0))
   \<and> length (fst (generate_data lcg 0)) = 181"
  using lcg_in_range full_filter_identity [OF lcg_in_range, of 0]
  by (rule conjI)
end
